theory Spec2Isabelle
  imports Complex_Main "HOL-Library.AList"
begin

section \<open>The audio user interface of mycroft-dinkum\<close>

text \<open>
  A shallow embedding of \<^verbatim>\<open>services/audio/service/audio_ui.py\<close>: the repeating timer,
  the registry of text-to-speech sessions, the speech playback thread and the handlers of the
  background stream.

  The audio HAL (\<^verbatim>\<open>audio_hal.py\<close>) and the message bus are not part of the embedded file.
  Every command sent to the HAL, every message emitted on the bus and every wait on a
  session's finished-signal is appended to the field \<open>effects\<close> of the state, in program order.
  What the HAL and the file system answer (whether the background stream is playing, its
  position, whether a file exists, the duration of a chunk) is an argument of the function
  that asks.

  Python floats (volumes, durations, clock readings) are modelled as reals, Python's unbounded
  integers as \<open>int\<close>. A handler call and one iteration of the speech thread's loop are
  each one atomic step; the interleavings considered are those of whole steps.
\<close>

subsection \<open>Messages\<close>

text \<open>A session id is \<^verbatim>\<open>Optional[str]\<close>.\<close>

type_synonym sid = "string option"

text \<open>An entry of \<^verbatim>\<open>tracks\<close>: a URI, or a sequence whose first element is the URI.\<close>

datatype track = TrackStr string | TrackSeq "string list"

text \<open>
  The dictionary \<^verbatim>\<open>message.data\<close>, restricted to the keys that \<^verbatim>\<open>audio_ui.py\<close> reads or
  writes. \<open>None\<close> is a key that is absent. For \<^verbatim>\<open>mycroft_session_id\<close> the value itself may
  be \<^verbatim>\<open>None\<close>, which \<^verbatim>\<open>handle_tts_chunk\<close> tells apart from an absent key.
\<close>

record msg_data =
  d_uri :: "string option"
  d_volume :: "real option"
  d_mycroft_session_id :: "sid option"
  d_chunk_index :: "int option"
  d_num_chunks :: "int option"
  d_text :: "string option"
  d_channel :: "int option"
  d_background :: "bool option"
  d_media_id :: sid
  d_tracks :: "track list option"
  d_position_ms :: "int option"

definition no_data :: msg_data where
  "no_data = \<lparr>d_uri = None, d_volume = None, d_mycroft_session_id = None,
     d_chunk_index = None, d_num_chunks = None, d_text = None, d_channel = None,
     d_background = None, d_media_id = None, d_tracks = None, d_position_ms = None\<rparr>"

datatype Message = Message (msg_type: string) (data: msg_data)

text \<open>\<^verbatim>\<open>message.data.get("mycroft_session_id")\<close>\<close>

definition get_session_id :: "Message \<Rightarrow> sid" where
  "get_session_id message =
     (case d_mycroft_session_id (data message) of None \<Rightarrow> None | Some v \<Rightarrow> v)"

text \<open>\<^verbatim>\<open>message.data.get("mycroft_session_id", "")\<close>\<close>

definition get_session_id_or_empty :: "Message \<Rightarrow> sid" where
  "get_session_id_or_empty message =
     (case d_mycroft_session_id (data message) of None \<Rightarrow> Some [] | Some v \<Rightarrow> v)"

text \<open>\<^verbatim>\<open>data={"mycroft_session_id": i}\<close>\<close>

definition session_data :: "sid \<Rightarrow> msg_data" where
  "session_data i = no_data\<lparr>d_mycroft_session_id := Some i\<rparr>"

subsection \<open>Chunks and sessions\<close>

record TTSRequest =
  uri :: string
  chunk_index :: int
  num_chunks :: int
  chunk_text :: "string option"

definition is_first_chunk :: "TTSRequest \<Rightarrow> bool" where
  "is_first_chunk r \<longleftrightarrow> chunk_index r \<le> 0"

definition is_last_chunk :: "TTSRequest \<Rightarrow> bool" where
  "is_last_chunk r \<longleftrightarrow> chunk_index r \<ge> num_chunks r - 1"

record TTSSession =
  mycroft_session_id :: sid
  chunk_queue :: "TTSRequest list"
  speech_finished :: bool
  is_finished :: bool

text \<open>\<^verbatim>\<open>TTSSession(mycroft_session_id=i)\<close>\<close>

definition new_session :: "sid \<Rightarrow> TTSSession" where
  "new_session i =
     \<lparr>mycroft_session_id = i, chunk_queue = [], speech_finished = False, is_finished = False\<rparr>"

text \<open>The data of \<^verbatim>\<open>mycroft.tts.chunk.started\<close> and \<^verbatim>\<open>mycroft.tts.chunk.ended\<close>.\<close>

definition chunk_data :: "sid \<Rightarrow> TTSRequest \<Rightarrow> msg_data" where
  "chunk_data i request =
     no_data\<lparr>d_mycroft_session_id := Some i, d_chunk_index := Some (chunk_index request),
       d_num_chunks := Some (num_chunks request), d_uri := Some (uri request),
       d_text := chunk_text request\<rparr>"

subsection \<open>The state of the service and its effects\<close>

datatype ForegroundChannel = EFFECT | SPEECH

definition channel_value :: "ForegroundChannel \<Rightarrow> int" where
  "channel_value c = (case c of EFFECT \<Rightarrow> 0 | SPEECH \<Rightarrow> 1)"

text \<open>
  The calls made on the HAL. \<open>play_foreground channel file_path volume media_id
  mycroft_session_id\<close>.
\<close>

datatype hal_call =
    play_foreground ForegroundChannel string "real option" sid sid
  | stop_foreground ForegroundChannel
  | set_background_volume real
  | start_background "string list"
  | pause_background
  | resume_background
  | stop_background
  | hal_shutdown

text \<open>\<open>Wait i t\<close>: \<^verbatim>\<open>speech_finished.wait(timeout=t)\<close> on the session whose id is \<open>i\<close>.\<close>

datatype effect = Emit Message | Hal hal_call | Wait sid real

datatype error = KeyError | AssertionError | StopIteration | AttributeError

text \<open>
  The outcome of a call that may raise: \<open>Inr s\<close> when it returns with state \<open>s\<close>,
  \<open>Inl (e, s)\<close> when it raises \<open>e\<close>, \<open>s\<close> being the state reached at the raise.
\<close>

type_synonym 'a result = "(error \<times> 'a) + 'a"

definition state_of :: "'a result \<Rightarrow> 'a" where
  "state_of r = (case r of Inl (e, s) \<Rightarrow> s | Inr s \<Rightarrow> s)"

text \<open>
  Where the speech thread stands: before the test of \<^verbatim>\<open>while self._is_running\<close>, in
  \<^verbatim>\<open>self._speech_ready.acquire()\<close>, or after the end of \<^verbatim>\<open>_speech_run\<close>.
\<close>

datatype thread_pc = Check | Acquire | Exited

record aui =
  duck_while_listening :: real
  confirm_listening :: bool
  start_listening_uri :: "string option"
  stream_session_id :: sid
  sessions :: "(sid \<times> TTSSession) list"
  speech_thread :: "thread_pc option"
  current_session_id :: sid
  speech_ready :: nat
  timer_cancelled :: bool
  attached :: bool
  is_running :: bool
  effects :: "effect list"

text \<open>
  The state after \<^verbatim>\<open>__init__\<close> and \<^verbatim>\<open>initialize\<close>: \<^verbatim>\<open>Semaphore()\<close> starts at one, the
  speech thread and the position timer are started, the handlers attached.
\<close>

definition initialize :: "real \<Rightarrow> bool \<Rightarrow> string option \<Rightarrow> aui" where
  "initialize duck confirm start_uri =
     \<lparr>duck_while_listening = duck, confirm_listening = confirm,
      start_listening_uri = start_uri, stream_session_id = None, sessions = [],
      speech_thread = Some Check, current_session_id = None, speech_ready = 1,
      timer_cancelled = False, attached = True, is_running = True, effects = []\<rparr>"

definition emit :: "Message \<Rightarrow> aui \<Rightarrow> aui" where
  "emit m s = s\<lparr>effects := effects s @ [Emit m]\<rparr>"

definition ahal :: "hal_call \<Rightarrow> aui \<Rightarrow> aui" where
  "ahal c s = s\<lparr>effects := effects s @ [Hal c]\<rparr>"

text \<open>\<^verbatim>\<open>s.startswith(p)\<close>\<close>

definition startswith :: "string \<Rightarrow> string \<Rightarrow> bool" where
  "startswith s p \<longleftrightarrow> take (length p) s = p"

subsection \<open>The repeating timer\<close>

text \<open>
  \<^verbatim>\<open>RepeatingTimer.run\<close>. The loop has no bound, so it runs on a list of cycles, one per
  iteration, each giving what the iteration observes: the flag \<^verbatim>\<open>cancelled\<close> at its three
  tests, the two readings of \<^verbatim>\<open>time.time()\<close>, and whether the function raised an
  \<^verbatim>\<open>Exception\<close>. The result is the sequence of sleeps and invocations, and whether the loop
  left through a \<^verbatim>\<open>break\<close> or the list ran out while it was still running.
\<close>

record cycle =
  cancelled_at_top :: bool
  cancelled_after_sleep :: bool
  start_time :: real
  end_time :: real
  raised :: bool
  cancelled_after_call :: bool

datatype timer_action = Sleep real | Invoke | LogException

datatype timer_end = Cancelled | Running

fun timer_loop :: "real \<Rightarrow> real \<Rightarrow> cycle list \<Rightarrow> timer_action list \<times> timer_end" where
  "timer_loop interval seconds_to_wait [] = ([], Running)"
| "timer_loop interval seconds_to_wait (c # cs) =
     (if cancelled_at_top c then ([], Cancelled)
      else if cancelled_after_sleep c then ([Sleep seconds_to_wait], Cancelled)
      else
        (let call = Invoke # (if raised c then [LogException] else [])
         in if cancelled_after_call c then (Sleep seconds_to_wait # call, Cancelled)
            else
              (let seconds_elapsed = end_time c - start_time c;
                   (acts, e) = timer_loop interval (max 0 (interval - seconds_elapsed)) cs
               in (Sleep seconds_to_wait # call @ acts, e))))"

definition timer_run :: "real \<Rightarrow> cycle list \<Rightarrow> timer_action list \<times> timer_end" where
  "timer_run interval cs = timer_loop interval interval cs"

subsection \<open>Volume, sound effects and listening\<close>

definition stop_tts :: "aui \<Rightarrow> aui" where
  "stop_tts s = ahal (stop_foreground SPEECH) (s\<lparr>current_session_id := None\<rparr>)"

definition duck_volume :: "aui \<Rightarrow> aui" where
  "duck_volume s = ahal (set_background_volume (1 - duck_while_listening s)) s"

definition unduck_volume :: "aui \<Rightarrow> aui" where
  "unduck_volume s = ahal (set_background_volume 1) s"

definition play_effect :: "string option \<Rightarrow> real option \<Rightarrow> sid \<Rightarrow> aui \<Rightarrow> aui result" where
  "play_effect u volume i s =
     (case u of
        None \<Rightarrow> Inr s
      | Some u' \<Rightarrow>
          if u' = [] then Inr s
          else if \<not> startswith u' ''file://'' then Inl (AssertionError, s)
          else Inr (ahal (play_foreground EFFECT (drop (length ''file://'') u') volume None i) s))"

definition handle_play_sound :: "Message \<Rightarrow> aui \<Rightarrow> aui result" where
  "handle_play_sound message s =
     play_effect (d_uri (data message)) (d_volume (data message)) (get_session_id message) s"

definition handle_start_listening :: "Message \<Rightarrow> aui \<Rightarrow> aui result" where
  "handle_start_listening message s =
     (let s1 = stop_tts (duck_volume s)
      in if start_listening_uri s1 \<noteq> None \<and> start_listening_uri s1 \<noteq> Some []
            \<and> confirm_listening s1
         then play_effect (start_listening_uri s1) None None s1
         else Inr s1)"

definition handle_end_listening :: "Message \<Rightarrow> aui \<Rightarrow> aui" where
  "handle_end_listening message s = unduck_volume s"

definition handle_tts_started :: "Message \<Rightarrow> aui \<Rightarrow> aui" where
  "handle_tts_started message s = duck_volume s"

definition handle_tts_finished :: "Message \<Rightarrow> aui \<Rightarrow> aui" where
  "handle_tts_finished message s = unduck_volume s"

subsection \<open>The session registry\<close>

text \<open>
  \<^verbatim>\<open>self._sessions\<close> is a dictionary: an association list in insertion order.
  \<^verbatim>\<open>AList.update\<close> replaces the value of a key in place and appends a new key at the end,
  as an assignment to a Python dictionary does.
\<close>

definition handle_tts_session_start :: "Message \<Rightarrow> aui \<Rightarrow> aui" where
  "handle_tts_session_start message s =
     (let i = get_session_id message;
          is_different_session = (i \<noteq> current_session_id s);
          session = (case map_of (sessions s) i of
                       None \<Rightarrow> new_session i
                     | Some session \<Rightarrow> session);
          s1 = s\<lparr>sessions := AList.update i (session\<lparr>is_finished := False\<rparr>) (sessions s),
                 current_session_id := i\<rparr>
      in if is_different_session then ahal (stop_foreground SPEECH) s1 else s1)"

definition handle_tts_chunk :: "Message \<Rightarrow> aui \<Rightarrow> aui result" where
  "handle_tts_chunk message s =
     (case d_uri (data message) of
        None \<Rightarrow> Inl (KeyError, s)
      | Some u \<Rightarrow>
         (let i = get_session_id_or_empty message;
              ci = (case d_chunk_index (data message) of None \<Rightarrow> 0 | Some n \<Rightarrow> n);
              nc = (case d_num_chunks (data message) of None \<Rightarrow> 1 | Some n \<Rightarrow> n);
              t = d_text (data message)
          in if i \<noteq> current_session_id s then Inr s
             else
               (case map_of (sessions s) i of
                  Some session \<Rightarrow>
                    (let request = \<lparr>uri = u, chunk_index = ci, num_chunks = nc, chunk_text = t\<rparr>
                     in Inr (s\<lparr>sessions :=
                                 AList.update i
                                   (session\<lparr>chunk_queue := chunk_queue session @ [request]\<rparr>)
                                   (sessions s),
                               speech_ready := speech_ready s + 1\<rparr>))
                | None \<Rightarrow> Inr s)))"

definition handle_media_finished :: "Message \<Rightarrow> aui \<Rightarrow> aui" where
  "handle_media_finished message s =
     (let background = (case d_background (data message) of None \<Rightarrow> False | Some b \<Rightarrow> b);
          media_id = d_media_id (data message)
      in if d_channel (data message) = Some (channel_value SPEECH) then
           (case map_of (sessions s) media_id of
              Some session \<Rightarrow>
                s\<lparr>sessions := AList.update media_id (session\<lparr>speech_finished := True\<rparr>)
                                (sessions s)\<rparr>
            | None \<Rightarrow> s)
         else if background then
           emit (Message ''mycroft.audio.queue_end'' (session_data (stream_session_id s))) s
         else s)"

subsection \<open>The speech thread\<close>

definition finish_tts_session :: "sid \<Rightarrow> aui \<Rightarrow> aui" where
  "finish_tts_session i s =
     emit (Message ''recognizer_loop:audio_output_end'' (session_data i))
       (emit (Message ''mycroft.tts.session.ended'' (session_data i)) s)"

text \<open>
  The loop over \<^verbatim>\<open>all_session_ids\<close>. \<^verbatim>\<open>self._sessions.pop(session_id, None)\<close> gives
  \<^verbatim>\<open>None\<close> for a key that is no longer there, and reading \<^verbatim>\<open>is_finished\<close> of it raises.
\<close>

fun clean_up_sessions :: "sid list \<Rightarrow> aui \<Rightarrow> aui result" where
  "clean_up_sessions [] s = Inr s"
| "clean_up_sessions (session_id # ids) s =
     (if session_id \<noteq> current_session_id s then
        (case map_of (sessions s) session_id of
           None \<Rightarrow> Inl (AttributeError, s)
         | Some cancelled_session \<Rightarrow>
             (let s1 = s\<lparr>sessions := AList.delete session_id (sessions s)\<rparr>
              in clean_up_sessions ids
                   (if \<not> is_finished cancelled_session
                    then finish_tts_session session_id s1 else s1)))
      else clean_up_sessions ids s)"

text \<open>What the file system and the HAL answer during one iteration of the speech loop.\<close>

record hal_env =
  isfile :: "string \<Rightarrow> bool"
  duration_sec :: "real option"

text \<open>
  \<open>session\<close> in \<^verbatim>\<open>_speech_run\<close> is the object registered under the current session id;
  a change of the object is a change of that entry of the registry.
\<close>

definition store_session :: "TTSSession \<Rightarrow> aui \<Rightarrow> aui" where
  "store_session session s =
     s\<lparr>sessions := AList.update (current_session_id s) session (sessions s)\<rparr>"

text \<open>
  Lines 418 to 438: play the file if it exists, and wait for the finished-signal if the HAL
  gave a duration.
\<close>

definition play_tts_chunk :: "hal_env \<Rightarrow> TTSSession \<Rightarrow> string \<Rightarrow> aui \<Rightarrow> aui" where
  "play_tts_chunk env session file_path s =
     (if isfile env file_path then
        (let s1 = ahal (play_foreground SPEECH file_path None
                          (mycroft_session_id session) (mycroft_session_id session)) s
         in case duration_sec env of
              Some d \<Rightarrow>
                (let timeout = d + 0.5
                 in s1\<lparr>effects := effects s1 @ [Wait (mycroft_session_id session) timeout]\<rparr>)
            | None \<Rightarrow> s1)
      else s)"

text \<open>
  Lines 440 to 457: emit \<^verbatim>\<open>mycroft.tts.chunk.ended\<close>, and finish the session after its
  last chunk unless it is finished already.
\<close>

definition end_tts_chunk :: "TTSSession \<Rightarrow> TTSRequest \<Rightarrow> aui \<Rightarrow> aui" where
  "end_tts_chunk session request s =
     (let s1 = emit (Message ''mycroft.tts.chunk.ended''
                       (chunk_data (mycroft_session_id session) request)) s
      in if is_last_chunk request \<and> \<not> is_finished session then
           finish_tts_session (mycroft_session_id session)
             (store_session (session\<lparr>is_finished := True\<rparr>) s1)
         else s1)"

text \<open>
  The body of the \<^verbatim>\<open>while\<close> loop of \<^verbatim>\<open>_speech_run\<close> after the semaphore has been
  acquired. \<open>Inr\<close> is the end of the iteration (also through \<^verbatim>\<open>continue\<close>), \<open>Inl\<close> an
  exception, which leaves the loop.
\<close>

definition speech_iteration :: "hal_env \<Rightarrow> aui \<Rightarrow> aui result" where
  "speech_iteration env s =
     (case map_of (sessions s) (current_session_id s) of
        None \<Rightarrow> Inr s
      | Some session \<Rightarrow>
         (case clean_up_sessions (map fst (sessions s)) s of
            Inl err \<Rightarrow> Inl err
          | Inr s1 \<Rightarrow>
             (case chunk_queue session of
                [] \<Rightarrow> Inr s1
              | request # rest \<Rightarrow>
                 (let session1 = session\<lparr>chunk_queue := rest\<rparr>;
                      s2 = emit (Message ''recognizer_loop:audio_output_start''
                                   (session_data (mycroft_session_id session1)))
                             (store_session session1 s1)
                  in if \<not> startswith (uri request) ''file://'' then Inl (AssertionError, s2)
                     else
                       (let file_path = drop (length ''file://'') (uri request);
                            s3 = emit (Message ''mycroft.tts.chunk.started''
                                         (chunk_data (mycroft_session_id session1) request)) s2;
                            session2 = session1\<lparr>speech_finished := False\<rparr>;
                            s4 = play_tts_chunk env session2 file_path (store_session session2 s3)
                        in Inr (end_tts_chunk session2 request s4))))))"

text \<open>
  One step of the speech thread: the test of the loop condition, or the acquisition of the
  semaphore followed by the body. A thread in \<^verbatim>\<open>acquire\<close> with no permit stays where it is.
\<close>

definition speech_thread_step :: "hal_env \<Rightarrow> aui \<Rightarrow> aui" where
  "speech_thread_step env s =
     (case speech_thread s of
        None \<Rightarrow> s
      | Some Exited \<Rightarrow> s
      | Some Check \<Rightarrow>
          if is_running s then s\<lparr>speech_thread := Some Acquire\<rparr>
          else s\<lparr>speech_thread := Some Exited\<rparr>
      | Some Acquire \<Rightarrow>
          if speech_ready s = 0 then s
          else
            (case speech_iteration env (s\<lparr>speech_ready := speech_ready s - 1\<rparr>) of
               Inl (err, s1) \<Rightarrow> s1\<lparr>speech_thread := Some Exited\<rparr>
             | Inr s1 \<Rightarrow> s1\<lparr>speech_thread := Some Check\<rparr>))"

text \<open>
  \<^verbatim>\<open>shutdown\<close>. When it joins the speech thread, \<^verbatim>\<open>_is_running\<close> is false and the
  semaphore has a permit, so the thread ends within two steps: at most one iteration, then the
  test of the loop condition.
\<close>

definition shutdown :: "hal_env \<Rightarrow> aui \<Rightarrow> aui" where
  "shutdown env s =
     (let s1 = s\<lparr>is_running := False, current_session_id := None, timer_cancelled := True,
                 attached := False\<rparr>;
          s2 = (if speech_thread s1 \<noteq> None then
                  (let s3 = ahal (stop_foreground SPEECH) s1;
                       s4 = s3\<lparr>speech_ready := speech_ready s3 + 1\<rparr>;
                       s5 = speech_thread_step env (speech_thread_step env s4)
                   in s5\<lparr>speech_thread := None\<rparr>)
                else s1)
      in ahal hal_shutdown s2)"

subsection \<open>The background stream\<close>

text \<open>The loop that builds \<^verbatim>\<open>uri_playlist\<close>; \<^verbatim>\<open>next(iter(track))\<close> raises on an empty track.\<close>

fun uri_playlist_of :: "track list \<Rightarrow> error + string list" where
  "uri_playlist_of [] = Inr []"
| "uri_playlist_of (TrackStr u # ts) =
     (case uri_playlist_of ts of Inl e \<Rightarrow> Inl e | Inr us \<Rightarrow> Inr (u # us))"
| "uri_playlist_of (TrackSeq [] # ts) = Inl StopIteration"
| "uri_playlist_of (TrackSeq (u # v) # ts) =
     (case uri_playlist_of ts of Inl e \<Rightarrow> Inl e | Inr us \<Rightarrow> Inr (u # us))"

definition handle_stream_play :: "Message \<Rightarrow> aui \<Rightarrow> aui result" where
  "handle_stream_play message s =
     (let tracks = (case d_tracks (data message) of None \<Rightarrow> [] | Some ts \<Rightarrow> ts)
      in if tracks = [] then Inr s
         else
           (case uri_playlist_of tracks of
              Inl e \<Rightarrow> Inl (e, s)
            | Inr uri_playlist \<Rightarrow>
               (let s1 = ahal stop_background s;
                    s2 = s1\<lparr>stream_session_id := get_session_id message\<rparr>;
                    s3 = ahal (start_background uri_playlist) s2
                in Inr (emit (Message ''mycroft.audio.service.playing''
                                (session_data (stream_session_id s3))) s3))))"

definition handle_stream_pause :: "Message \<Rightarrow> aui \<Rightarrow> aui" where
  "handle_stream_pause message s =
     (let i = get_session_id message
      in if i = stream_session_id s then
           emit (Message ''mycroft.audio.service.paused'' (session_data i))
             (ahal pause_background s)
         else s)"

definition handle_stream_resume :: "Message \<Rightarrow> aui \<Rightarrow> aui" where
  "handle_stream_resume message s =
     (let i = get_session_id message
      in if i = stream_session_id s then
           emit (Message ''mycroft.audio.service.resumed'' (session_data i))
             (ahal resume_background s)
         else s)"

definition handle_stream_stop :: "Message \<Rightarrow> aui \<Rightarrow> aui" where
  "handle_stream_stop message s =
     (let i = get_session_id message
      in if i = stream_session_id s then
           emit (Message ''mycroft.audio.service.stopped'' (session_data i))
             (ahal pause_background s)
         else s)"

text \<open>
  \<^verbatim>\<open>send_stream_position\<close>; \<open>playing\<close> is what \<^verbatim>\<open>is_background_playing()\<close> returns and
  \<open>position_ms\<close> what \<^verbatim>\<open>get_background_time()\<close> returns.
\<close>

definition send_stream_position :: "bool \<Rightarrow> int \<Rightarrow> aui \<Rightarrow> aui" where
  "send_stream_position playing position_ms s =
     (if \<not> playing then s
      else if position_ms \<ge> 0 then
        emit (Message ''mycroft.audio.service.position''
                (no_data\<lparr>d_mycroft_session_id := Some (stream_session_id s),
                         d_position_ms := Some position_ms\<rparr>)) s
      else s)"

subsection \<open>Runs of the service\<close>

text \<open>\<^verbatim>\<open>self._bus_events\<close>\<close>

definition returning :: "(Message \<Rightarrow> aui \<Rightarrow> aui) \<Rightarrow> Message \<Rightarrow> aui \<Rightarrow> aui result" where
  "returning h message s = Inr (h message s)"

definition bus_events :: "(string \<times> (Message \<Rightarrow> aui \<Rightarrow> aui result)) list" where
  "bus_events =
     [(''recognizer_loop:record_begin'', handle_start_listening),
      (''recognizer_loop:record_end'', returning handle_end_listening),
      (''recognizer_loop:audio_output_start'', returning handle_tts_started),
      (''recognizer_loop:audio_output_end'', returning handle_tts_finished),
      (''mycroft.audio.play-sound'', handle_play_sound),
      (''mycroft.tts.stop'', returning (\<lambda>message. stop_tts)),
      (''mycroft.tts.session.start'', returning handle_tts_session_start),
      (''mycroft.tts.chunk.start'', handle_tts_chunk),
      (''mycroft.audio.hal.media.ended'', returning handle_media_finished),
      (''mycroft.audio.service.play'', handle_stream_play),
      (''mycroft.audio.service.pause'', returning handle_stream_pause),
      (''mycroft.audio.service.resume'', returning handle_stream_resume),
      (''mycroft.audio.service.stop'', returning handle_stream_stop)]"

text \<open>
  What can happen to the service: a message arrives on the bus, the speech thread takes a
  step, the position timer fires, or the service is shut down. An exception of a handler is
  logged by the bus client; the state it reached stays.
\<close>

datatype event =
    Bus Message
  | SpeechThread hal_env
  | PositionTimer bool int
  | Shutdown hal_env

definition step :: "event \<Rightarrow> aui \<Rightarrow> aui" where
  "step ev s =
     (case ev of
        Bus message \<Rightarrow>
          (if attached s then
             (case map_of bus_events (msg_type message) of
                None \<Rightarrow> s
              | Some handler \<Rightarrow> state_of (handler message s))
           else s)
      | SpeechThread env \<Rightarrow> speech_thread_step env s
      | PositionTimer playing position_ms \<Rightarrow>
          (if timer_cancelled s then s else send_stream_position playing position_ms s)
      | Shutdown env \<Rightarrow> shutdown env s)"

fun run :: "event list \<Rightarrow> aui \<Rightarrow> aui" where
  "run [] s = s"
| "run (ev # evs) s = run evs (step ev s)"

subsection \<open>Notions used in the statements\<close>

text \<open>A cycle of the timer during which \<^verbatim>\<open>cancel()\<close> has not been called.\<close>

definition uncancelled :: "cycle \<Rightarrow> bool" where
  "uncancelled c \<longleftrightarrow>
     \<not> cancelled_at_top c \<and> \<not> cancelled_after_sleep c \<and> \<not> cancelled_after_call c"

text \<open>
  What the timer does in cycles that are not cancelled, and the time to sleep after them.
\<close>

fun cycles_log :: "real \<Rightarrow> real \<Rightarrow> cycle list \<Rightarrow> timer_action list" where
  "cycles_log interval w [] = []"
| "cycles_log interval w (c # cs) =
     Sleep w # Invoke # (if raised c then [LogException] else [])
       @ cycles_log interval (max 0 (interval - (end_time c - start_time c))) cs"

fun wait_after :: "real \<Rightarrow> real \<Rightarrow> cycle list \<Rightarrow> real" where
  "wait_after interval w [] = w"
| "wait_after interval w (c # cs) =
     wait_after interval (max 0 (interval - (end_time c - start_time c))) cs"

text \<open>The two termination events of a session, as \<^verbatim>\<open>_finish_tts_session\<close> emits them.\<close>

definition session_ended :: "sid \<Rightarrow> effect" where
  "session_ended i = Emit (Message ''mycroft.tts.session.ended'' (session_data i))"

definition audio_output_end :: "sid \<Rightarrow> effect" where
  "audio_output_end i = Emit (Message ''recognizer_loop:audio_output_end'' (session_data i))"

definition chunk_started :: "sid \<Rightarrow> TTSRequest \<Rightarrow> effect" where
  "chunk_started i request = Emit (Message ''mycroft.tts.chunk.started'' (chunk_data i request))"

definition chunk_ended :: "sid \<Rightarrow> TTSRequest \<Rightarrow> effect" where
  "chunk_ended i request = Emit (Message ''mycroft.tts.chunk.ended'' (chunk_data i request))"

definition is_wait :: "effect \<Rightarrow> bool" where
  "is_wait e = (case e of Wait i t \<Rightarrow> True | _ \<Rightarrow> False)"

definition is_play :: "effect \<Rightarrow> bool" where
  "is_play e = (case e of Hal (play_foreground c f v m i) \<Rightarrow> True | _ \<Rightarrow> False)"

text \<open>What a step has added to the effects.\<close>

definition new_effects :: "aui \<Rightarrow> aui \<Rightarrow> effect list" where
  "new_effects s s' = drop (length (effects s)) (effects s')"

text \<open>
  The registry is a dictionary, so its keys are distinct, and every session is registered
  under its own id.
\<close>

definition registry_ok :: "aui \<Rightarrow> bool" where
  "registry_ok s \<longleftrightarrow>
     distinct (map fst (sessions s))
     \<and> list_all (\<lambda>(k, session). mycroft_session_id session = k) (sessions s)"

text \<open>The session of id \<open>k\<close> is registered and not finished.\<close>

definition unfinished :: "sid \<Rightarrow> aui \<Rightarrow> bool" where
  "unfinished k s =
     (case map_of (sessions s) k of None \<Rightarrow> False | Some session \<Rightarrow> \<not> is_finished session)"

text \<open>The event is a \<^verbatim>\<open>mycroft.tts.session.start\<close> for the id \<open>k\<close>.\<close>

definition is_session_start :: "sid \<Rightarrow> event \<Rightarrow> bool" where
  "is_session_start k ev =
     (case ev of
        Bus message \<Rightarrow>
          msg_type message = ''mycroft.tts.session.start'' \<and> get_session_id message = k
      | _ \<Rightarrow> False)"

text \<open>
  What the clean-up of the speech loop emits for the key \<open>k\<close> of a registry \<open>m\<close> when the
  current session id is \<open>cur\<close>, and what it emits for a whole registry, in the order of its
  keys.
\<close>

definition stale_events :: "sid \<Rightarrow> (sid \<rightharpoonup> TTSSession) \<Rightarrow> sid \<Rightarrow> effect list" where
  "stale_events cur m k =
     (case m k of
        None \<Rightarrow> []
      | Some x \<Rightarrow> if k \<noteq> cur \<and> \<not> is_finished x then [session_ended k, audio_output_end k] else [])"

definition stale_log :: "sid \<Rightarrow> (sid \<times> TTSSession) list \<Rightarrow> effect list" where
  "stale_log cur xs = concat (map (stale_events cur (map_of xs)) (map fst xs))"

definition audio_output_start :: "sid \<Rightarrow> effect" where
  "audio_output_start i = Emit (Message ''recognizer_loop:audio_output_start'' (session_data i))"

text \<open>
  What one iteration of the speech loop does with the HAL for a chunk, and everything it
  appends to the effects for a chunk whose URI begins with \<^verbatim>\<open>file://\<close>.
\<close>

definition play_log :: "hal_env \<Rightarrow> sid \<Rightarrow> string \<Rightarrow> effect list" where
  "play_log env i file_path =
     (if isfile env file_path then
        Hal (play_foreground SPEECH file_path None i i)
          # (case duration_sec env of Some d \<Rightarrow> [Wait i (d + 1 / 2)] | None \<Rightarrow> [])
      else [])"

definition chunk_log :: "hal_env \<Rightarrow> TTSSession \<Rightarrow> TTSRequest \<Rightarrow> effect list" where
  "chunk_log env session request =
     [audio_output_start (mycroft_session_id session),
      chunk_started (mycroft_session_id session) request]
     @ play_log env (mycroft_session_id session) (drop (length ''file://'') (uri request))
     @ [chunk_ended (mycroft_session_id session) request]
     @ (if is_last_chunk request \<and> \<not> is_finished session
        then [session_ended (mycroft_session_id session),
              audio_output_end (mycroft_session_id session)]
        else [])"

text \<open>
  \<open>pot k s\<close> is one when the session \<open>k\<close> can still be finished, and zero otherwise.
  A step from \<open>s\<close> to \<open>s'\<close> respects it when it keeps the registry well formed, only
  appends to the effects, and emits \<^verbatim>\<open>mycroft.tts.session.ended\<close> for \<open>k\<close> as often as
  \<open>pot k\<close> decreases, and likewise \<^verbatim>\<open>recognizer_loop:audio_output_end\<close>.
\<close>

definition pot :: "sid \<Rightarrow> aui \<Rightarrow> nat" where
  "pot k s = (if unfinished k s then 1 else 0)"

definition quiet_step :: "sid \<Rightarrow> aui \<Rightarrow> aui \<Rightarrow> bool" where
  "quiet_step k s s' \<longleftrightarrow>
     registry_ok s'
     \<and> take (length (effects s)) (effects s') = effects s
     \<and> count_list (new_effects s s') (session_ended k) + pot k s' = pot k s
     \<and> count_list (new_effects s s') (audio_output_end k) + pot k s' = pot k s"


subsection \<open>Example messages and states\<close>

definition service0 :: aui where
  "service0 = initialize (1 / 2) False None"

definition start_msg :: "string \<Rightarrow> Message" where
  "start_msg i = Message ''mycroft.tts.session.start'' (session_data (Some i))"

definition chunk_msg :: "string \<Rightarrow> string \<Rightarrow> int \<Rightarrow> int \<Rightarrow> Message" where
  "chunk_msg i u ci nc =
     Message ''mycroft.tts.chunk.start''
       (no_data\<lparr>d_mycroft_session_id := Some (Some i), d_uri := Some u,
                d_chunk_index := Some ci, d_num_chunks := Some nc\<rparr>)"

definition stream_msg :: "string \<Rightarrow> string \<Rightarrow> Message" where
  "stream_msg topic i = Message topic (session_data (Some i))"

text \<open>The service after \<^verbatim>\<open>service.play\<close> of one track for the session \<open>X\<close>.\<close>

definition playing_X :: aui where
  "playing_X =
     state_of (handle_stream_play
       (Message ''mycroft.audio.service.play''
          (no_data\<lparr>d_mycroft_session_id := Some (Some ''X''),
                   d_tracks := Some [TrackStr ''file:///song.mp3'']\<rparr>))
       service0)"

text \<open>The service after \<^verbatim>\<open>tts.session.start\<close> for the session \<open>A\<close>.\<close>

definition started_A :: aui where
  "started_A = handle_tts_session_start (start_msg ''A'') service0"

text \<open>A file system in which every file exists, and one in which none does.\<close>

definition all_files :: "real option \<Rightarrow> hal_env" where
  "all_files d = \<lparr>isfile = (\<lambda>p. True), duration_sec = d\<rparr>"

definition no_files :: hal_env where
  "no_files = \<lparr>isfile = (\<lambda>p. False), duration_sec = None\<rparr>"

definition cycle_of :: "real \<Rightarrow> real \<Rightarrow> bool \<Rightarrow> cycle" where
  "cycle_of t0 t1 r =
     \<lparr>cancelled_at_top = False, cancelled_after_sleep = False, start_time = t0,
      end_time = t1, raised = r, cancelled_after_call = False\<rparr>"

text \<open>A chunk without text.\<close>

definition request_of :: "string \<Rightarrow> int \<Rightarrow> int \<Rightarrow> TTSRequest" where
  "request_of u ci nc = \<lparr>uri = u, chunk_index = ci, num_chunks = nc, chunk_text = None\<rparr>"

text \<open>The session \<open>A\<close> started and then superseded by \<open>B\<close>; no chunk has arrived.\<close>

definition superseded_A :: aui where
  "superseded_A = handle_tts_session_start (start_msg ''B'') started_A"

text \<open>The session \<open>A\<close> started, with one chunk queued.\<close>

definition queued_A :: "string \<Rightarrow> int \<Rightarrow> int \<Rightarrow> aui" where
  "queued_A u ci nc = state_of (handle_tts_chunk (chunk_msg ''A'' u ci nc) started_A)"

text \<open>The session \<open>A\<close> started, then \<^verbatim>\<open>mycroft.tts.stop\<close>.\<close>

definition stopped_A :: aui where
  "stopped_A = run [Bus (start_msg ''A''), Bus (Message ''mycroft.tts.stop'' no_data)] service0"

text \<open>
  The speech thread has reached \<^verbatim>\<open>acquire\<close>; the session \<open>A\<close> is started and superseded by
  \<open>B\<close>; then the service is shut down.
\<close>

definition shut_down_AB :: aui where
  "shut_down_AB =
     run [SpeechThread no_files, Bus (start_msg ''A''), Bus (start_msg ''B''),
          Shutdown no_files] service0"

text \<open>A chunk whose URI is not a \<^verbatim>\<open>file://\<close> URI is queued, and the speech thread runs.\<close>

definition http_chunk_run :: aui where
  "http_chunk_run =
     run [Bus (start_msg ''A''), Bus (chunk_msg ''A'' ''http://tts/a0.wav'' 0 1),
          SpeechThread (all_files (Some 2)), SpeechThread (all_files (Some 2))] service0"



section \<open>The background stream and the position reporter\<close>

lemma playing_X_owner: "stream_session_id playing_X = Some ''X''"
  by (simp add: playing_X_def service0_def handle_stream_play_def state_of_def
      get_session_id_def emit_def ahal_def no_data_def initialize_def)

text \<open>
  C6. A \<^verbatim>\<open>service.pause\<close>, \<^verbatim>\<open>service.resume\<close> or \<^verbatim>\<open>service.stop\<close> whose session id is not
  the owner of the stream leaves the whole state as it is: no call to the HAL, the owner
  unchanged, nothing emitted. When the id is the owner, the handler makes its one call to the
  HAL and emits exactly one \<^verbatim>\<open>service.paused\<close>, \<^verbatim>\<open>service.resumed\<close> or
  \<^verbatim>\<open>service.stopped\<close> with that id, and changes nothing else.
\<close>

theorem stream_control_gated:
  "(get_session_id message \<noteq> stream_session_id s \<longrightarrow>
      handle_stream_pause message s = s \<and> handle_stream_resume message s = s
      \<and> handle_stream_stop message s = s)
   \<and> (get_session_id message = stream_session_id s \<longrightarrow>
      handle_stream_pause message s =
        s\<lparr>effects := effects s @ [Hal pause_background,
             Emit (Message ''mycroft.audio.service.paused''
                     (session_data (get_session_id message)))]\<rparr>
      \<and> handle_stream_resume message s =
        s\<lparr>effects := effects s @ [Hal resume_background,
             Emit (Message ''mycroft.audio.service.resumed''
                     (session_data (get_session_id message)))]\<rparr>
      \<and> handle_stream_stop message s =
        s\<lparr>effects := effects s @ [Hal pause_background,
             Emit (Message ''mycroft.audio.service.stopped''
                     (session_data (get_session_id message)))]\<rparr>)"
  by (simp add: handle_stream_pause_def handle_stream_resume_def handle_stream_stop_def
      emit_def ahal_def)

theorem stream_control_gated_witness:
  "get_session_id (stream_msg ''mycroft.audio.service.pause'' ''Y'') \<noteq> stream_session_id playing_X
   \<and> handle_stream_pause (stream_msg ''mycroft.audio.service.pause'' ''Y'') playing_X = playing_X
   \<and> get_session_id (stream_msg ''mycroft.audio.service.pause'' ''X'') = stream_session_id playing_X
   \<and> effects (handle_stream_pause (stream_msg ''mycroft.audio.service.pause'' ''X'') playing_X)
      = effects playing_X @ [Hal pause_background,
             Emit (Message ''mycroft.audio.service.paused'' (session_data (Some ''X'')))]"
  using stream_control_gated [of "stream_msg ''mycroft.audio.service.pause'' ''Y''" playing_X]
    stream_control_gated [of "stream_msg ''mycroft.audio.service.pause'' ''X''" playing_X]
  by (simp add: playing_X_owner get_session_id_def stream_msg_def session_data_def no_data_def)

text \<open>
  C9. For a session id that is the owner of the stream, \<^verbatim>\<open>handle_stream_stop\<close> does what
  \<^verbatim>\<open>handle_stream_pause\<close> does: the same call \<^verbatim>\<open>pause_background\<close> to the HAL and no
  other change of the state. The two results differ in the topic of the one emitted message
  only, \<^verbatim>\<open>service.stopped\<close> for \<^verbatim>\<open>service.paused\<close>.
\<close>

theorem stop_is_pause:
  "get_session_id message = stream_session_id s \<Longrightarrow>
     handle_stream_pause message s =
       s\<lparr>effects := effects s @ [Hal pause_background] @
            [Emit (Message ''mycroft.audio.service.paused''
                    (session_data (get_session_id message)))]\<rparr>
     \<and> handle_stream_stop message s =
       s\<lparr>effects := effects s @ [Hal pause_background] @
            [Emit (Message ''mycroft.audio.service.stopped''
                    (session_data (get_session_id message)))]\<rparr>"
  by (simp add: handle_stream_pause_def handle_stream_stop_def emit_def ahal_def)

theorem stop_is_pause_witness:
  "get_session_id (stream_msg ''mycroft.audio.service.stop'' ''X'') = stream_session_id playing_X
   \<and> handle_stream_pause (stream_msg ''mycroft.audio.service.stop'' ''X'') playing_X =
       playing_X\<lparr>effects := effects playing_X @ [Hal pause_background] @
            [Emit (Message ''mycroft.audio.service.paused'' (session_data (Some ''X'')))]\<rparr>
   \<and> handle_stream_stop (stream_msg ''mycroft.audio.service.stop'' ''X'') playing_X =
       playing_X\<lparr>effects := effects playing_X @ [Hal pause_background] @
            [Emit (Message ''mycroft.audio.service.stopped'' (session_data (Some ''X'')))]\<rparr>"
  using stop_is_pause [of "stream_msg ''mycroft.audio.service.stop'' ''X''" playing_X]
  by (simp add: playing_X_owner get_session_id_def stream_msg_def session_data_def no_data_def)

text \<open>
  C10. A \<^verbatim>\<open>service.play\<close> whose \<^verbatim>\<open>tracks\<close> is absent or the empty list returns at once
  with the state unchanged: the background stream is not stopped, the owner of the stream
  stays, and no \<^verbatim>\<open>service.playing\<close> is emitted.
\<close>

theorem play_without_tracks:
  "d_tracks (data message) = None \<or> d_tracks (data message) = Some [] \<Longrightarrow>
     handle_stream_play message s = Inr s"
  by (auto simp: handle_stream_play_def)

theorem play_without_tracks_witness:
  "(d_tracks (data (stream_msg ''mycroft.audio.service.play'' ''Z'')) = None
      \<or> d_tracks (data (stream_msg ''mycroft.audio.service.play'' ''Z'')) = Some [])
   \<and> handle_stream_play (stream_msg ''mycroft.audio.service.play'' ''Z'') playing_X
       = Inr playing_X"
  using play_without_tracks [of "stream_msg ''mycroft.audio.service.play'' ''Z''" playing_X]
  by (simp add: stream_msg_def session_data_def no_data_def)

text \<open>
  C8. \<^verbatim>\<open>send_stream_position\<close> emits nothing and changes nothing when the HAL reports that
  the background stream is not playing, or reports a negative position. Otherwise it emits
  exactly one \<^verbatim>\<open>service.position\<close>, which carries the owner of the stream and the reported
  position, which is at least zero.
\<close>

theorem position_report:
  "(\<not> playing \<or> position_ms < 0 \<longrightarrow> send_stream_position playing position_ms s = s)
   \<and> (playing \<and> 0 \<le> position_ms \<longrightarrow>
        send_stream_position playing position_ms s =
          s\<lparr>effects := effects s @ [Emit (Message ''mycroft.audio.service.position''
               (no_data\<lparr>d_mycroft_session_id := Some (stream_session_id s),
                        d_position_ms := Some position_ms\<rparr>))]\<rparr>)"
  by (auto simp: send_stream_position_def emit_def)

theorem position_report_witness:
  "send_stream_position False 1500 playing_X = playing_X
   \<and> send_stream_position True (- 1) playing_X = playing_X
   \<and> send_stream_position True 1500 playing_X =
       playing_X\<lparr>effects := effects playing_X @ [Emit (Message ''mycroft.audio.service.position''
          (no_data\<lparr>d_mycroft_session_id := Some (Some ''X''), d_position_ms := Some 1500\<rparr>))]\<rparr>"
  using position_report [of False 1500 playing_X] position_report [of True "- 1" playing_X]
    position_report [of True 1500 playing_X]
  by (simp add: playing_X_owner)

section \<open>The repeating timer\<close>

lemma timer_loop_prefix:
  "list_all uncancelled pre \<Longrightarrow>
   timer_loop interval w (pre @ post) =
     (cycles_log interval w pre @ fst (timer_loop interval (wait_after interval w pre) post),
      snd (timer_loop interval (wait_after interval w pre) post))"
proof (induction pre arbitrary: w)
  case Nil
  then show ?case by simp
next
  case (Cons c pre)
  then have u: "uncancelled c" and rest: "list_all uncancelled pre" by simp_all
  show ?case
    using u Cons.IH [OF rest, of "max 0 (interval - (end_time c - start_time c))"]
    by (simp add: uncancelled_def split: prod.splits)
qed

lemma wait_after_last:
  "wait_after interval w (pre @ [c]) = max 0 (interval - (end_time c - start_time c))"
  by (induction pre arbitrary: w) simp_all

lemma cycles_log_sleeps:
  "[a \<leftarrow> cycles_log interval w cs. a \<noteq> LogException] =
     concat (map (\<lambda>w. [Sleep w, Invoke])
       (butlast (w # map (\<lambda>c. max 0 (interval - (end_time c - start_time c))) cs)))"
  by (induction cs arbitrary: w) simp_all

text \<open>
  C7. Take a run of the timer in which \<^verbatim>\<open>cancel()\<close> is not called during the cycles
  \<open>pre\<close> and \<open>c\<close>. Whether or not the function raised in any of them, the timer has slept
  and called the function once in each: it slept \<open>interval\<close> before the first call, and
  after each call \<open>max 0 (interval - elapsed)\<close> of that call before the next one. After
  the call of \<open>c\<close> it goes on with the cycles that remain, with
  \<open>max 0 (interval - (end_time c - start_time c))\<close> as the time to sleep; when the next
  cycle is not cancelled at its top that sleep is the next thing the timer does.
\<close>

theorem timer_sleeps_interval_minus_elapsed:
  assumes "list_all uncancelled pre" and "uncancelled c"
  shows "\<exists>log.
     timer_run interval (pre @ c # post) =
       (log @ fst (timer_loop interval (max 0 (interval - (end_time c - start_time c))) post),
        snd (timer_loop interval (max 0 (interval - (end_time c - start_time c))) post))
     \<and> [a \<leftarrow> log. a \<noteq> LogException] =
         concat (map (\<lambda>w. [Sleep w, Invoke])
           (interval # map (\<lambda>c. max 0 (interval - (end_time c - start_time c))) pre))
     \<and> (\<forall>c' post'. post = c' # post' \<and> \<not> cancelled_at_top c' \<longrightarrow>
          hd (fst (timer_loop interval (max 0 (interval - (end_time c - start_time c))) post))
            = Sleep (max 0 (interval - (end_time c - start_time c))))"
proof -
  have "list_all uncancelled (pre @ [c])" using assms by simp
  from timer_loop_prefix [OF this, of interval interval post]
  have "timer_run interval (pre @ c # post) =
       (cycles_log interval interval (pre @ [c])
          @ fst (timer_loop interval (max 0 (interval - (end_time c - start_time c))) post),
        snd (timer_loop interval (max 0 (interval - (end_time c - start_time c))) post))"
    by (simp add: timer_run_def wait_after_last)
  moreover have "[a \<leftarrow> cycles_log interval interval (pre @ [c]). a \<noteq> LogException] =
         concat (map (\<lambda>w. [Sleep w, Invoke])
           (interval # map (\<lambda>c. max 0 (interval - (end_time c - start_time c))) pre))"
    by (simp add: cycles_log_sleeps butlast_append)
  moreover have "\<forall>c' post'. post = c' # post' \<and> \<not> cancelled_at_top c' \<longrightarrow>
          hd (fst (timer_loop interval (max 0 (interval - (end_time c - start_time c))) post))
            = Sleep (max 0 (interval - (end_time c - start_time c)))"
    by (auto simp: Let_def split: prod.splits)
  ultimately show ?thesis by blast
qed

theorem timer_sleeps_interval_minus_elapsed_witness:
  "list_all uncancelled [cycle_of 10 (41 / 4) True]
   \<and> uncancelled (cycle_of 11 13 False)
   \<and> timer_run 1 ([cycle_of 10 (41 / 4) True] @ cycle_of 11 13 False # [cycle_of 13 (27 / 2) False])
       = ([Sleep 1, Invoke, LogException, Sleep (3 / 4), Invoke, Sleep 0, Invoke], Running)"
  using timer_sleeps_interval_minus_elapsed
    [of "[cycle_of 10 (41 / 4) True]" "cycle_of 11 13 False" 1 "[cycle_of 13 (27 / 2) False]"]
  by (simp add: timer_run_def cycle_of_def uncancelled_def)

section \<open>Chunks of a session that is not the current one\<close>

lemma bus_events_chunk_start:
  "map_of bus_events ''mycroft.tts.chunk.start'' = Some handle_tts_chunk"
  by (simp add: bus_events_def)

lemma started_A_current: "current_session_id started_A = Some ''A''"
  by (simp add: started_A_def start_msg_def handle_tts_session_start_def get_session_id_def
      session_data_def no_data_def service0_def initialize_def ahal_def Let_def)

text \<open>
  C2. A \<^verbatim>\<open>mycroft.tts.chunk.start\<close> whose session id is not the current session id is
  dropped: the handler leaves the whole state as it is, so no queue changes and the semaphore
  is not released. Every run of the service that goes on after the message is the run that
  would have taken place without it, so nothing is ever emitted for that chunk, and no
  \<^verbatim>\<open>mycroft.tts.chunk.started\<close> in particular.
\<close>

theorem chunk_of_other_session_dropped:
  "get_session_id_or_empty message \<noteq> current_session_id s \<Longrightarrow>
     state_of (handle_tts_chunk message s) = s
     \<and> (msg_type message = ''mycroft.tts.chunk.start'' \<longrightarrow>
          run (Bus message # evs) s = run evs s)"
  by (auto simp: handle_tts_chunk_def state_of_def step_def bus_events_chunk_start Let_def
      split: option.splits)

theorem chunk_of_other_session_dropped_witness:
  "get_session_id_or_empty (chunk_msg ''B'' ''file:///b0.wav'' 0 1) \<noteq> current_session_id started_A
   \<and> state_of (handle_tts_chunk (chunk_msg ''B'' ''file:///b0.wav'' 0 1) started_A) = started_A
   \<and> msg_type (chunk_msg ''B'' ''file:///b0.wav'' 0 1) = ''mycroft.tts.chunk.start''
   \<and> run (Bus (chunk_msg ''B'' ''file:///b0.wav'' 0 1) # [SpeechThread no_files, SpeechThread no_files])
         started_A
       = run [SpeechThread no_files, SpeechThread no_files] started_A"
  using chunk_of_other_session_dropped
    [of "chunk_msg ''B'' ''file:///b0.wav'' 0 1" started_A "[SpeechThread no_files, SpeechThread no_files]"]
  by (simp add: started_A_current chunk_msg_def get_session_id_or_empty_def no_data_def)

section \<open>The speech loop\<close>

text \<open>The equations that evaluate a run of the service on concrete events.\<close>

lemmas eval_simps = run.simps step_def bus_events_def returning_def state_of_def
  handle_tts_session_start_def handle_tts_chunk_def stop_tts_def speech_thread_step_def
  speech_iteration_def store_session_def play_tts_chunk_def end_tts_chunk_def
  finish_tts_session_def emit_def ahal_def shutdown_def startswith_def
  get_session_id_def get_session_id_or_empty_def session_data_def chunk_data_def no_data_def
  new_session_def initialize_def Let_def is_last_chunk_def
  session_ended_def audio_output_end_def audio_output_start_def chunk_started_def
  chunk_ended_def new_effects_def registry_ok_def unfinished_def is_session_start_def

subsection \<open>The clean-up of superseded sessions\<close>

lemma finish_tts_session_eq:
  "finish_tts_session i s = s\<lparr>effects := effects s @ [session_ended i, audio_output_end i]\<rparr>"
  by (simp add: finish_tts_session_def emit_def session_ended_def audio_output_end_def)

lemma stale_events_delete:
  "k' \<noteq> k \<Longrightarrow> stale_events cur (map_of (AList.delete k xs)) k' = stale_events cur (map_of xs) k'"
  by (simp add: stale_events_def)

lemma clean_up_sessions_general:
  "distinct ids \<Longrightarrow> set ids \<subseteq> fst ` set (sessions s) \<Longrightarrow>
   clean_up_sessions ids s =
     Inr (s\<lparr>sessions := filter (\<lambda>p. fst p \<notin> set ids \<or> fst p = current_session_id s) (sessions s),
            effects := effects s @ concat (map (stale_events (current_session_id s) (map_of (sessions s))) ids)\<rparr>)"
proof (induction ids arbitrary: s)
  case Nil
  then show ?case by simp
next
  case (Cons k ids)
  show ?case
  proof (cases "k = current_session_id s")
    case True
    have "filter (\<lambda>p. fst p \<notin> set (k # ids) \<or> fst p = current_session_id s) (sessions s)
        = filter (\<lambda>p. fst p \<notin> set ids \<or> fst p = current_session_id s) (sessions s)"
      using True by (intro filter_cong) auto
    moreover have "stale_events (current_session_id s) (map_of (sessions s)) k = []"
      using True by (simp add: stale_events_def split: option.splits)
    ultimately show ?thesis
      using True Cons by simp
  next
    case False
    from Cons.prems obtain x where x: "map_of (sessions s) k = Some x"
      by (metis list.set_intros(1) subsetD map_of_eq_None_iff not_None_eq)
    define s1 where "s1 = (if \<not> is_finished x
        then finish_tts_session k (s\<lparr>sessions := AList.delete k (sessions s)\<rparr>)
        else s\<lparr>sessions := AList.delete k (sessions s)\<rparr>)"
    have s1_sessions: "sessions s1 = AList.delete k (sessions s)"
      and s1_cur: "current_session_id s1 = current_session_id s"
      and s1_eff: "effects s1 = effects s @ stale_events (current_session_id s) (map_of (sessions s)) k"
      using False x by (simp_all add: s1_def finish_tts_session_eq stale_events_def)
    have s1_eq: "s1 = s\<lparr>sessions := AList.delete k (sessions s),
        effects := effects s @ stale_events (current_session_id s) (map_of (sessions s)) k\<rparr>"
      using False x by (simp add: s1_def finish_tts_session_eq stale_events_def)
    have d: "distinct ids" and kn: "k \<notin> set ids" using Cons.prems by simp_all
    have sub: "set ids \<subseteq> fst ` set (sessions s1)"
    proof
      fix k' assume k': "k' \<in> set ids"
      with Cons.prems have "k' \<in> fst ` set (sessions s)" by auto
      then obtain y where "(k', y) \<in> set (sessions s)" by force
      moreover from k' kn have "k' \<noteq> k" by auto
      ultimately have "(k', y) \<in> set (AList.delete k (sessions s))"
        by (auto simp: AList.delete_eq)
      then show "k' \<in> fst ` set (sessions s1)"
        unfolding s1_sessions by force
    qed
    have step: "clean_up_sessions (k # ids) s = clean_up_sessions ids s1"
      using False x by (simp add: s1_def Let_def)
    have f: "filter (\<lambda>p. fst p \<notin> set ids \<or> fst p = current_session_id s) (AList.delete k (sessions s))
        = filter (\<lambda>p. fst p \<notin> set (k # ids) \<or> fst p = current_session_id s) (sessions s)"
      using False by (auto simp: AList.delete_eq intro!: filter_cong)
    have m: "map (stale_events (current_session_id s) (map_of (AList.delete k (sessions s)))) ids
        = map (stale_events (current_session_id s) (map_of (sessions s))) ids"
      using kn by (intro map_cong refl stale_events_delete) auto
    have "clean_up_sessions ids s1 =
        Inr (s1\<lparr>sessions := filter (\<lambda>p. fst p \<notin> set ids \<or> fst p = current_session_id s1) (sessions s1),
               effects := effects s1 @ concat (map (stale_events (current_session_id s1) (map_of (sessions s1))) ids)\<rparr>)"
      by (rule Cons.IH [OF d sub])
    also have "\<dots> =
        Inr (s\<lparr>sessions := filter (\<lambda>p. fst p \<notin> set (k # ids) \<or> fst p = current_session_id s) (sessions s),
              effects := effects s @ concat (map (stale_events (current_session_id s) (map_of (sessions s))) (k # ids))\<rparr>)"
      unfolding s1_sessions s1_cur s1_eff f m by (simp add: s1_eq)
    finally show ?thesis unfolding step .
  qed
qed

lemma clean_up_all:
  assumes "distinct (map fst (sessions s))"
  shows "clean_up_sessions (map fst (sessions s)) s =
     Inr (s\<lparr>sessions := filter (\<lambda>p. fst p = current_session_id s) (sessions s),
            effects := effects s @ stale_log (current_session_id s) (sessions s)\<rparr>)"
proof -
  have "filter (\<lambda>p. fst p \<notin> set (map fst (sessions s)) \<or> fst p = current_session_id s) (sessions s)
      = filter (\<lambda>p. fst p = current_session_id s) (sessions s)"
    by (intro filter_cong) auto
  then show ?thesis
    using clean_up_sessions_general [OF assms, of s] by (simp add: stale_log_def)
qed

lemma filter_key_single:
  "distinct (map fst xs) \<Longrightarrow> map_of xs k = Some v \<Longrightarrow> filter (\<lambda>p. fst p = k) xs = [(k, v)]"
proof (induction xs)
  case Nil
  then show ?case by simp
next
  case (Cons p xs)
  show ?case
  proof (cases "fst p = k")
    case True
    with Cons.prems have "k \<notin> fst ` set xs" and "snd p = v" by auto
    then have "filter (\<lambda>p. fst p = k) xs = []" by (auto simp: filter_empty_conv)
    with True \<open>snd p = v\<close> show ?thesis by (cases p) simp
  next
    case False
    with Cons show ?thesis by (cases p) auto
  qed
qed

lemma speech_iteration_no_session:
  "map_of (sessions s) (current_session_id s) = None \<Longrightarrow> speech_iteration env s = Inr s"
  by (simp add: speech_iteration_def)

subsection \<open>One iteration\<close>

lemma speech_iteration_cleaned:
  assumes d: "distinct (map fst (sessions s))"
    and m: "map_of (sessions s) (current_session_id s) = Some session"
  shows "speech_iteration env s =
     (let s1 = s\<lparr>sessions := [(current_session_id s, session)],
                 effects := effects s @ stale_log (current_session_id s) (sessions s)\<rparr>
      in case chunk_queue session of
           [] \<Rightarrow> Inr s1
         | request # rest \<Rightarrow>
            (let session1 = session\<lparr>chunk_queue := rest\<rparr>;
                 s2 = emit (Message ''recognizer_loop:audio_output_start''
                              (session_data (mycroft_session_id session1)))
                        (store_session session1 s1)
             in if \<not> startswith (uri request) ''file://'' then Inl (AssertionError, s2)
                else
                  (let file_path = drop (length ''file://'') (uri request);
                       s3 = emit (Message ''mycroft.tts.chunk.started''
                                    (chunk_data (mycroft_session_id session1) request)) s2;
                       session2 = session1\<lparr>speech_finished := False\<rparr>;
                       s4 = play_tts_chunk env session2 file_path (store_session session2 s3)
                   in Inr (end_tts_chunk session2 request s4))))"
proof -
  have c: "clean_up_sessions (map fst (sessions s)) s =
     Inr (s\<lparr>sessions := [(current_session_id s, session)],
            effects := effects s @ stale_log (current_session_id s) (sessions s)\<rparr>)"
    unfolding clean_up_all [OF d] filter_key_single [OF d m] ..
  show ?thesis
    unfolding speech_iteration_def m c by (simp only: option.case sum.case Let_def)
qed

lemma speech_iteration_idle:
  assumes "distinct (map fst (sessions s))"
    and "map_of (sessions s) (current_session_id s) = Some session"
    and "chunk_queue session = []"
  shows "speech_iteration env s =
     Inr (s\<lparr>sessions := [(current_session_id s, session)],
            effects := effects s @ stale_log (current_session_id s) (sessions s)\<rparr>)"
  unfolding speech_iteration_cleaned [OF assms(1,2)] using assms(3) by simp

lemma speech_iteration_bad_uri:
  assumes "distinct (map fst (sessions s))"
    and "map_of (sessions s) (current_session_id s) = Some session"
    and "chunk_queue session = request # rest"
    and "\<not> startswith (uri request) ''file://''"
  shows "speech_iteration env s =
     Inl (AssertionError,
          s\<lparr>sessions := [(current_session_id s, session\<lparr>chunk_queue := rest\<rparr>)],
            effects := effects s @ stale_log (current_session_id s) (sessions s)
              @ [audio_output_start (mycroft_session_id session)]\<rparr>)"
  unfolding speech_iteration_cleaned [OF assms(1,2)] using assms(3,4)
  by (simp add: store_session_def emit_def audio_output_start_def Let_def)

lemma play_tts_chunk_eq:
  "play_tts_chunk env session file_path s =
     s\<lparr>effects := effects s @ play_log env (mycroft_session_id session) file_path\<rparr>"
  by (cases "duration_sec env") (simp_all add: play_tts_chunk_def play_log_def ahal_def Let_def)

lemma end_tts_chunk_last:
  "is_last_chunk request \<Longrightarrow> \<not> is_finished session \<Longrightarrow>
   end_tts_chunk session request s =
     s\<lparr>sessions := AList.update (current_session_id s) (session\<lparr>is_finished := True\<rparr>) (sessions s),
       effects := effects s @ [chunk_ended (mycroft_session_id session) request,
         session_ended (mycroft_session_id session), audio_output_end (mycroft_session_id session)]\<rparr>"
  by (simp add: end_tts_chunk_def Let_def emit_def store_session_def finish_tts_session_eq
      chunk_ended_def)

lemma end_tts_chunk_not_last:
  "\<not> (is_last_chunk request \<and> \<not> is_finished session) \<Longrightarrow>
   end_tts_chunk session request s =
     s\<lparr>effects := effects s @ [chunk_ended (mycroft_session_id session) request]\<rparr>"
  by (cases "is_last_chunk request"; cases "is_finished session")
    (simp_all add: end_tts_chunk_def Let_def emit_def chunk_ended_def)

lemma speech_iteration_played:
  assumes "distinct (map fst (sessions s))"
    and "map_of (sessions s) (current_session_id s) = Some session"
    and "chunk_queue session = request # rest"
    and "startswith (uri request) ''file://''"
  shows "speech_iteration env s =
     Inr (s\<lparr>sessions := [(current_session_id s,
                session\<lparr>chunk_queue := rest, speech_finished := False,
                  is_finished := is_finished session \<or> is_last_chunk request\<rparr>)],
            effects := effects s @ stale_log (current_session_id s) (sessions s)
              @ chunk_log env session request\<rparr>)"
proof (cases "is_last_chunk request \<and> \<not> is_finished session")
  case True
  then have l: "is_last_chunk request"
    and f: "\<not> is_finished (session\<lparr>chunk_queue := rest, speech_finished := False\<rparr>)" by simp_all
  show ?thesis
    unfolding speech_iteration_cleaned [OF assms(1,2)] using assms(3,4) True
    by (simp add: Let_def play_tts_chunk_eq end_tts_chunk_last [OF l f] store_session_def emit_def
        chunk_log_def audio_output_start_def chunk_started_def)
next
  case False
  then have n: "\<not> (is_last_chunk request
      \<and> \<not> is_finished (session\<lparr>chunk_queue := rest, speech_finished := False\<rparr>))" by simp
  have e: "session\<lparr>chunk_queue := rest, speech_finished := False,
        is_finished := is_finished session \<or> is_last_chunk request\<rparr>
      = session\<lparr>chunk_queue := rest, speech_finished := False\<rparr>"
    using False by (cases "is_finished session") simp_all
  show ?thesis
    unfolding speech_iteration_cleaned [OF assms(1,2)] e using assms(3,4) False
    by (simp add: Let_def play_tts_chunk_eq end_tts_chunk_not_last [OF n] store_session_def emit_def
        chunk_log_def audio_output_start_def chunk_started_def)
qed

subsection \<open>Counting termination events\<close>

lemma session_data_inj [simp]: "session_data i = session_data j \<longleftrightarrow> i = j"
  by (auto simp: session_data_def no_data_def)

lemma session_ended_inj [simp]: "session_ended i = session_ended j \<longleftrightarrow> i = j"
  by (simp add: session_ended_def)

lemma audio_output_end_inj [simp]: "audio_output_end i = audio_output_end j \<longleftrightarrow> i = j"
  by (simp add: audio_output_end_def)

lemma termination_events_distinct [simp]:
  "session_ended i \<noteq> audio_output_end j" "audio_output_end j \<noteq> session_ended i"
  "session_ended i \<noteq> audio_output_start j" "audio_output_end i \<noteq> audio_output_start j"
  "session_ended i \<noteq> chunk_started j r" "audio_output_end i \<noteq> chunk_started j r"
  "session_ended i \<noteq> chunk_ended j r" "audio_output_end i \<noteq> chunk_ended j r"
  "audio_output_start j \<noteq> session_ended i" "audio_output_start j \<noteq> audio_output_end i"
  "chunk_started j r \<noteq> session_ended i" "chunk_started j r \<noteq> audio_output_end i"
  "chunk_ended j r \<noteq> session_ended i" "chunk_ended j r \<noteq> audio_output_end i"
  "session_ended i \<noteq> Hal c" "audio_output_end i \<noteq> Hal c"
  "session_ended i \<noteq> Wait j t" "audio_output_end i \<noteq> Wait j t"
  "Hal c \<noteq> session_ended i" "Hal c \<noteq> audio_output_end i"
  "Wait j t \<noteq> session_ended i" "Wait j t \<noteq> audio_output_end i"
  by (simp_all add: session_ended_def audio_output_end_def audio_output_start_def
      chunk_started_def chunk_ended_def)

lemma count_stale_ended:
  "distinct ks \<Longrightarrow>
   count_list (concat (map (stale_events cur m) ks)) (session_ended k) =
     (if k \<in> set ks \<and> k \<noteq> cur \<and> (\<exists>x. m k = Some x \<and> \<not> is_finished x) then 1 else 0)"
  by (induction ks) (auto simp: stale_events_def split: option.splits)

lemma count_stale_end:
  "distinct ks \<Longrightarrow>
   count_list (concat (map (stale_events cur m) ks)) (audio_output_end k) =
     (if k \<in> set ks \<and> k \<noteq> cur \<and> (\<exists>x. m k = Some x \<and> \<not> is_finished x) then 1 else 0)"
  by (induction ks) (auto simp: stale_events_def split: option.splits)

lemma map_of_in_keys: "map_of xs k = Some x \<Longrightarrow> k \<in> set (map fst xs)"
  by (metis map_of_eq_None_iff option.distinct(1) set_map)

lemma count_stale_log:
  assumes "distinct (map fst (sessions s))"
  shows "count_list (stale_log (current_session_id s) (sessions s)) (session_ended k)
           = (if k \<noteq> current_session_id s \<and> unfinished k s then 1 else 0)"
    and "count_list (stale_log (current_session_id s) (sessions s)) (audio_output_end k)
           = (if k \<noteq> current_session_id s \<and> unfinished k s then 1 else 0)"
  unfolding stale_log_def count_stale_ended [OF assms] count_stale_end [OF assms]
  by (auto simp: unfinished_def dest: map_of_in_keys split: option.splits)

lemma count_play_log [simp]:
  "count_list (play_log env i p) (session_ended k) = 0"
  "count_list (play_log env i p) (audio_output_end k) = 0"
  by (simp_all add: play_log_def split: option.splits)

lemma count_chunk_log:
  "count_list (chunk_log env session request) (session_ended k) =
     (if mycroft_session_id session = k \<and> is_last_chunk request \<and> \<not> is_finished session
      then 1 else 0)"
  "count_list (chunk_log env session request) (audio_output_end k) =
     (if mycroft_session_id session = k \<and> is_last_chunk request \<and> \<not> is_finished session
      then 1 else 0)"
  by (simp_all add: chunk_log_def)

lemma registry_ok_single:
  "registry_ok s \<Longrightarrow> mycroft_session_id x = k \<Longrightarrow> registry_ok (s\<lparr>sessions := [(k, x)], effects := e\<rparr>)"
  by (simp add: registry_ok_def)

lemma registry_ok_lookup:
  "registry_ok s \<Longrightarrow> map_of (sessions s) k = Some x \<Longrightarrow> mycroft_session_id x = k"
  by (auto simp: registry_ok_def list_all_iff dest!: map_of_SomeD)

lemma quiet_step_refl: "registry_ok s \<Longrightarrow> quiet_step k s s"
  by (simp add: quiet_step_def new_effects_def)

lemma quiet_stepI:
  assumes "registry_ok s'" and "effects s' = effects s @ new"
    and "count_list new (session_ended k) + pot k s' = pot k s"
    and "count_list new (audio_output_end k) + pot k s' = pot k s"
  shows "quiet_step k s s'"
  using assms by (simp add: quiet_step_def new_effects_def)

lemma speech_iteration_quiet:
  assumes ok: "registry_ok s"
  shows "quiet_step k s (state_of (speech_iteration env s))"
proof (cases "map_of (sessions s) (current_session_id s)")
  case None
  then show ?thesis
    using ok by (simp add: speech_iteration_no_session state_of_def quiet_step_refl)
next
  case (Some session)
  from ok have d: "distinct (map fst (sessions s))" by (simp add: registry_ok_def)
  have own: "mycroft_session_id session = current_session_id s"
    using registry_ok_lookup [OF ok Some] .
  note cnt = count_stale_log [OF d, of k]
  show ?thesis
  proof (cases "chunk_queue session")
    case Nil
    show ?thesis
      unfolding speech_iteration_idle [OF d Some Nil] state_of_def sum.case
      by (rule quiet_stepI [where new = "stale_log (current_session_id s) (sessions s)"])
        (use ok own Some in \<open>auto simp: registry_ok_single cnt pot_def unfinished_def\<close>)
  next
    case (Cons request rest)
    show ?thesis
    proof (cases "startswith (uri request) ''file://''")
      case False
      show ?thesis
        unfolding speech_iteration_bad_uri [OF d Some Cons False] state_of_def sum.case prod.case
        by (rule quiet_stepI [where new = "stale_log (current_session_id s) (sessions s)
              @ [audio_output_start (mycroft_session_id session)]"])
          (use ok own Some in \<open>auto simp: registry_ok_single cnt pot_def unfinished_def\<close>)
    next
      case True
      show ?thesis
        unfolding speech_iteration_played [OF d Some Cons True] state_of_def sum.case
        by (rule quiet_stepI [where new = "stale_log (current_session_id s) (sessions s)
              @ chunk_log env session request"])
          (use ok own Some in \<open>auto simp: registry_ok_single cnt count_chunk_log pot_def unfinished_def\<close>)
    qed
  qed
qed

subsection \<open>The steps of the service\<close>


lemma quiet_stepD:
  assumes "quiet_step k s s'"
  shows "registry_ok s'" and "effects s' = effects s @ new_effects s s'"
    and "count_list (new_effects s s') (session_ended k) + pot k s' = pot k s"
    and "count_list (new_effects s s') (audio_output_end k) + pot k s' = pot k s"
proof -
  from assms have t: "take (length (effects s)) (effects s') = effects s"
    by (simp add: quiet_step_def)
  have "effects s' = take (length (effects s)) (effects s') @ drop (length (effects s)) (effects s')"
    by simp
  then show "effects s' = effects s @ new_effects s s'"
    unfolding t new_effects_def .
qed (use assms in \<open>simp_all add: quiet_step_def\<close>)










lemma other_emit [simp]:
  "t \<noteq> ''mycroft.tts.session.ended'' \<Longrightarrow> Emit (Message t d) \<noteq> session_ended k"
  "t \<noteq> ''recognizer_loop:audio_output_end'' \<Longrightarrow> Emit (Message t d) \<noteq> audio_output_end k"
  "t \<noteq> ''mycroft.tts.session.ended'' \<Longrightarrow> session_ended k \<noteq> Emit (Message t d)"
  "t \<noteq> ''recognizer_loop:audio_output_end'' \<Longrightarrow> audio_output_end k \<noteq> Emit (Message t d)"
  by (auto simp: session_ended_def audio_output_end_def)

















lemma state_of_returning [simp]: "state_of (returning h m s) = h m s"
  by (simp add: returning_def state_of_def)




subsection \<open>Termination events of superseded and finished sessions\<close>

lemma registry_ok_distinct: "registry_ok s \<Longrightarrow> distinct (map fst (sessions s))"
  by (simp add: registry_ok_def)

lemma speech_iteration_keys:
  assumes ok: "registry_ok s" and m: "map_of (sessions s) (current_session_id s) = Some session"
  shows "map fst (sessions (state_of (speech_iteration env s))) = [current_session_id s]"
proof -
  note d = registry_ok_distinct [OF ok]
  show ?thesis
  proof (cases "chunk_queue session")
    case Nil
    show ?thesis by (simp add: speech_iteration_idle [OF d m Nil] state_of_def)
  next
    case (Cons request rest)
    show ?thesis
    proof (cases "startswith (uri request) ''file://''")
      case True
      show ?thesis by (simp add: speech_iteration_played [OF d m Cons True] state_of_def)
    next
      case False
      show ?thesis by (simp add: speech_iteration_bad_uri [OF d m Cons False] state_of_def)
    qed
  qed
qed

text \<open>
  C1, as amended. Take a wake of the speech loop, that is one iteration after the semaphore
  has been acquired, in a state whose registry is well formed. If the current session id
  names no registered session, the iteration ends at once and nothing is cleaned up. If it
  names a registered session, then after the iteration that session is the only one left in
  the registry, the effects have only grown, and for every other session \<open>k\<close> that was
  registered the iteration has emitted exactly one \<^verbatim>\<open>mycroft.tts.session.ended\<close> and exactly
  one \<^verbatim>\<open>recognizer_loop:audio_output_end\<close> for \<open>k\<close> when \<open>k\<close> was not finished, and none
  when it was; whether \<open>k\<close> ever received a chunk plays no part.
\<close>

theorem stale_sessions_cleaned_on_wake:
  assumes ok: "registry_ok s"
  shows "(map_of (sessions s) (current_session_id s) = None \<longrightarrow> speech_iteration env s = Inr s)
    \<and> (map_of (sessions s) (current_session_id s) \<noteq> None \<longrightarrow>
         map fst (sessions (state_of (speech_iteration env s))) = [current_session_id s]
         \<and> take (length (effects s)) (effects (state_of (speech_iteration env s))) = effects s
         \<and> (\<forall>k stale. map_of (sessions s) k = Some stale \<and> k \<noteq> current_session_id s \<longrightarrow>
              count_list (new_effects s (state_of (speech_iteration env s))) (session_ended k)
                = (if is_finished stale then 0 else 1)
              \<and> count_list (new_effects s (state_of (speech_iteration env s))) (audio_output_end k)
                = (if is_finished stale then 0 else 1)))"
proof (intro conjI impI allI)
  assume "map_of (sessions s) (current_session_id s) = None"
  then show "speech_iteration env s = Inr s" by (rule speech_iteration_no_session)
next
  assume "map_of (sessions s) (current_session_id s) \<noteq> None"
  then obtain session where m: "map_of (sessions s) (current_session_id s) = Some session"
    by auto
  show "map fst (sessions (state_of (speech_iteration env s))) = [current_session_id s]"
    by (rule speech_iteration_keys [OF ok m])
next
  show "take (length (effects s)) (effects (state_of (speech_iteration env s))) = effects s"
    using speech_iteration_quiet [OF ok, of None env] by (simp add: quiet_step_def)
next
  fix k stale
  assume reg: "map_of (sessions s) (current_session_id s) \<noteq> None"
    and st: "map_of (sessions s) k = Some stale \<and> k \<noteq> current_session_id s"
  from reg obtain session where m: "map_of (sessions s) (current_session_id s) = Some session"
    by auto
  let ?s' = "state_of (speech_iteration env s)"
  have keys: "map fst (sessions ?s') = [current_session_id s]"
    by (rule speech_iteration_keys [OF ok m])
  have "map_of (sessions ?s') k = None"
    using st keys by (metis list.set(1) list.simps(15) map_of_eq_None_iff set_map singletonD)
  then have after: "pot k ?s' = 0" by (simp add: pot_def unfinished_def)
  have before: "pot k s = (if is_finished stale then 0 else 1)"
    using st by (simp add: pot_def unfinished_def)
  note q = speech_iteration_quiet [OF ok, of k env]
  show "count_list (new_effects s ?s') (session_ended k) = (if is_finished stale then 0 else 1)"
    using quiet_stepD(3) [OF q] after before by simp
  show "count_list (new_effects s ?s') (audio_output_end k) = (if is_finished stale then 0 else 1)"
    using quiet_stepD(4) [OF q] after before by simp
qed

theorem stale_sessions_cleaned_on_wake_witness:
  "registry_ok superseded_A
   \<and> map_of (sessions superseded_A) (current_session_id superseded_A) \<noteq> None
   \<and> map fst (sessions superseded_A) = [Some ''A'', Some ''B'']
   \<and> map (chunk_queue \<circ> snd) (sessions superseded_A) = [[], []]
   \<and> map fst (sessions (state_of (speech_iteration no_files superseded_A))) = [Some ''B'']
   \<and> count_list (new_effects superseded_A (state_of (speech_iteration no_files superseded_A)))
        (session_ended (Some ''A'')) = 1
   \<and> count_list (new_effects superseded_A (state_of (speech_iteration no_files superseded_A)))
        (audio_output_end (Some ''A'')) = 1"
  using stale_sessions_cleaned_on_wake [of superseded_A no_files]
  by (simp add: superseded_A_def started_A_def start_msg_def service0_def no_files_def
      eval_simps)

text \<open>
  The claim as stated fails. After \<^verbatim>\<open>mycroft.tts.stop\<close> the current session id is
  \<^verbatim>\<open>None\<close>, and a wake leaves the unfinished session \<open>A\<close> in the registry and emits
  nothing. And when \<open>A\<close> is superseded by \<open>B\<close> and the service is shut down before any
  chunk arrives, the speech thread wakes once during \<^verbatim>\<open>shutdown\<close> and ends: \<open>A\<close> is still
  registered and unfinished, and no message has been emitted at all.
\<close>

theorem supersession_counterexample:
  "unfinished (Some ''A'') stopped_A
   \<and> current_session_id stopped_A = None
   \<and> speech_iteration no_files stopped_A = Inr stopped_A
   \<and> map fst (sessions shut_down_AB) = [Some ''A'', Some ''B'']
   \<and> unfinished (Some ''A'') shut_down_AB
   \<and> effects shut_down_AB =
        [Hal (stop_foreground SPEECH), Hal (stop_foreground SPEECH),
         Hal (stop_foreground SPEECH), Hal hal_shutdown]
   \<and> speech_ready shut_down_AB = 1
   \<and> speech_thread shut_down_AB = None
   \<and> attached shut_down_AB = False"
  by (simp add: stopped_A_def shut_down_AB_def start_msg_def service0_def no_files_def
      eval_simps)







subsection \<open>Playing a chunk\<close>

lemma stale_log_events:
  "e \<in> set (stale_log cur xs) \<Longrightarrow> \<exists>k. e = session_ended k \<or> e = audio_output_end k"
  by (auto simp: stale_log_def stale_events_def split: option.splits if_splits)

lemma stale_log_no_wait [simp]: "filter is_wait (stale_log cur xs) = []"
  by (auto simp: filter_empty_conv is_wait_def session_ended_def audio_output_end_def
      dest!: stale_log_events)

lemma stale_log_no_play [simp]: "filter is_play (stale_log cur xs) = []"
  by (auto simp: filter_empty_conv is_play_def session_ended_def audio_output_end_def
      dest!: stale_log_events)

lemma stale_log_no_chunk_ended [simp]: "count_list (stale_log cur xs) (chunk_ended i r) = 0"
  by (auto simp: count_list_0_iff dest!: stale_log_events)

lemma is_wait_simps [simp]:
  "\<not> is_wait (session_ended i)" "\<not> is_wait (audio_output_end i)"
  "\<not> is_wait (audio_output_start i)" "\<not> is_wait (chunk_started i r)"
  "\<not> is_wait (chunk_ended i r)" "\<not> is_wait (Hal c)" "is_wait (Wait i t)"
  by (simp_all add: is_wait_def session_ended_def audio_output_end_def audio_output_start_def
      chunk_started_def chunk_ended_def)

lemma is_play_simps [simp]:
  "\<not> is_play (session_ended i)" "\<not> is_play (audio_output_end i)"
  "\<not> is_play (audio_output_start i)" "\<not> is_play (chunk_started i r)"
  "\<not> is_play (chunk_ended i r)" "\<not> is_play (Wait i t)"
  by (simp_all add: is_play_def session_ended_def audio_output_end_def audio_output_start_def
      chunk_started_def chunk_ended_def)

lemma chunk_ended_distinct [simp]:
  "chunk_ended i r \<noteq> audio_output_start j" "chunk_ended i r \<noteq> chunk_started j q"
  "audio_output_start j \<noteq> chunk_ended i r" "chunk_started j q \<noteq> chunk_ended i r"
  by (simp_all add: chunk_ended_def audio_output_start_def chunk_started_def)

lemma new_effects_append [simp]: "new_effects s (s\<lparr>sessions := xs, effects := effects s @ new\<rparr>) = new"
  by (simp add: new_effects_def)

text \<open>
  C4, as amended. Take an iteration of the speech loop that dequeues a chunk whose URI begins
  with \<^verbatim>\<open>file://\<close>, in a state whose registry is well formed. The iteration ends without
  an exception. If the file exists and the HAL's play call returns a duration \<open>d\<close>, the
  loop waits on the finished-signal of the session with the timeout \<open>d + 0.5\<close>, and the
  next thing after the wait is the \<^verbatim>\<open>mycroft.tts.chunk.ended\<close> of the chunk. If the file
  does not exist or the play call returns no duration, there is no wait, and the
  \<^verbatim>\<open>mycroft.tts.chunk.ended\<close> of the chunk is emitted all the same. The iteration waits
  nowhere else.
\<close>

theorem wait_is_duration_plus_half:
  assumes ok: "registry_ok s"
    and m: "map_of (sessions s) (current_session_id s) = Some session"
    and q: "chunk_queue session = request # rest"
    and f: "startswith (uri request) ''file://''"
  shows "\<exists>s' pre post.
     speech_iteration env s = Inr s'
     \<and> new_effects s s' =
         pre @ (case (if isfile env (drop (length ''file://'') (uri request))
                      then duration_sec env else None) of
                  Some d \<Rightarrow> [Wait (mycroft_session_id session) (d + 0.5)]
                | None \<Rightarrow> [])
             @ chunk_ended (mycroft_session_id session) request # post
     \<and> filter is_wait pre = [] \<and> filter is_wait post = []"
proof -
  let ?i = "mycroft_session_id session"
  let ?path = "drop (length ''file://'') (uri request)"
  let ?pre = "stale_log (current_session_id s) (sessions s)
      @ [audio_output_start ?i, chunk_started ?i request]
      @ (if isfile env ?path then [Hal (play_foreground SPEECH ?path None ?i ?i)] else [])"
  let ?post = "if is_last_chunk request \<and> \<not> is_finished session
      then [session_ended ?i, audio_output_end ?i] else []"
  have c: "stale_log (current_session_id s) (sessions s) @ chunk_log env session request =
      ?pre @ (case (if isfile env ?path then duration_sec env else None) of
                 Some d \<Rightarrow> [Wait ?i (d + 0.5)] | None \<Rightarrow> [])
        @ chunk_ended ?i request # ?post"
    by (simp add: chunk_log_def play_log_def split: option.splits)
  have w: "filter is_wait ?pre = []" "filter is_wait ?post = []"
    by simp_all
  define s' where "s' = s\<lparr>sessions := [(current_session_id s,
        session\<lparr>chunk_queue := rest, speech_finished := False,
          is_finished := is_finished session \<or> is_last_chunk request\<rparr>)],
      effects := effects s @ stale_log (current_session_id s) (sessions s)
        @ chunk_log env session request\<rparr>"
  have r: "speech_iteration env s = Inr s'"
    unfolding s'_def by (rule speech_iteration_played [OF registry_ok_distinct [OF ok] m q f])
  have "new_effects s s' = stale_log (current_session_id s) (sessions s)
      @ chunk_log env session request"
    by (simp add: s'_def new_effects_def)
  then have "new_effects s s' =
      ?pre @ (case (if isfile env ?path then duration_sec env else None) of
                 Some d \<Rightarrow> [Wait ?i (d + 0.5)] | None \<Rightarrow> [])
        @ chunk_ended ?i request # ?post"
    unfolding c .
  with r w show ?thesis by blast
qed

theorem wait_is_duration_plus_half_witness:
  "registry_ok (queued_A ''file:///a0.wav'' 0 2)
   \<and> map_of (sessions (queued_A ''file:///a0.wav'' 0 2))
        (current_session_id (queued_A ''file:///a0.wav'' 0 2))
      = Some ((new_session (Some ''A''))\<lparr>chunk_queue := [request_of ''file:///a0.wav'' 0 2]\<rparr>)
   \<and> startswith (uri (request_of ''file:///a0.wav'' 0 2)) ''file://''
   \<and> new_effects (queued_A ''file:///a0.wav'' 0 2)
        (state_of (speech_iteration (all_files (Some 2)) (queued_A ''file:///a0.wav'' 0 2)))
      = [audio_output_start (Some ''A''),
         chunk_started (Some ''A'') (request_of ''file:///a0.wav'' 0 2),
         Hal (play_foreground SPEECH ''/a0.wav'' None (Some ''A'') (Some ''A'')),
         Wait (Some ''A'') (5 / 2),
         chunk_ended (Some ''A'') (request_of ''file:///a0.wav'' 0 2)]"
  using wait_is_duration_plus_half
    [of "queued_A ''file:///a0.wav'' 0 2"
        "(new_session (Some ''A''))\<lparr>chunk_queue := [request_of ''file:///a0.wav'' 0 2]\<rparr>"
        "request_of ''file:///a0.wav'' 0 2" "[]" "all_files (Some 2)"]
  by (simp add: queued_A_def started_A_def start_msg_def chunk_msg_def service0_def
      request_of_def all_files_def
      eval_simps)

text \<open>
  The claim as stated fails for a dequeued chunk whose URI does not begin with
  \<^verbatim>\<open>file://\<close>: the assertion of the loop fails after \<^verbatim>\<open>recognizer_loop:audio_output_start\<close>,
  no \<^verbatim>\<open>mycroft.tts.chunk.ended\<close> is emitted, and the speech thread ends.
\<close>

theorem non_file_uri_counterexample:
  "effects http_chunk_run = [Hal (stop_foreground SPEECH), audio_output_start (Some ''A'')]
   \<and> sessions http_chunk_run = [(Some ''A'', new_session (Some ''A''))]
   \<and> speech_thread http_chunk_run = Some Exited"
  by (simp add: http_chunk_run_def start_msg_def chunk_msg_def service0_def all_files_def
      eval_simps)







end
